theory Spec2Isabelle
  imports Main
begin

section \<open>The syntax tree of the schema language\<close>

text \<open>
  The service \<^verbatim>\<open>PrismaSchemaUtilsService\<close> works on the tree that the grammar library
  hands over: a schema is a list of blocks, a model block has a name and a list of
  properties, a property is a field, a model-level attribute or something else
  (a comment, a blank line), and an attribute has a kind, a name and an optional list
  of arguments. Optional members of the tree (\<^verbatim>\<open>args?\<close>, \<^verbatim>\<open>attributes?\<close>) are
  \<open>option\<close> values: \<open>None\<close> is JavaScript's \<^verbatim>\<open>undefined\<close>.
\<close>

text \<open>
  The value of an attribute argument (\<^verbatim>\<open>arg.value\<close>). \<open>Scalar\<close> is a primitive
  (string, number, boolean), kept as its literal token; \<open>Null\<close> is \<^verbatim>\<open>null\<close>;
  \<open>RelationArray\<close> is the object \<^verbatim>\<open>{type: "array", args}\<close>; \<open>KeyValue\<close> is
  \<^verbatim>\<open>{type: "keyValue", key, value}\<close>; \<open>Func\<close> is \<^verbatim>\<open>{type: "function", name, params}\<close>,
  an object of neither of the two shapes the serializer knows.
\<close>

datatype Value =
    Scalar string
  | Null
  | RelationArray "string list"
  | KeyValue string Value
  | Func string "Value list"

datatype AttributeKind = ModelKind | FieldKind

record Attribute =
  kind :: AttributeKind
  attr_name :: string
  args :: "Value list option"

record Field =
  field_name :: string
  fieldType :: string
  optional :: bool
  attributes :: "Attribute list option"

datatype Property =
    PField Field
  | PAttribute Attribute
  | PComment string
  | PBreak

record Model =
  model_name :: string
  properties :: "Property list"

datatype Block =
    ModelBlock Model
  | OtherBlock string

type_synonym Schema = "Block list"

text \<open>The tag \<^verbatim>\<open>prop.type\<close> of a property node and \<^verbatim>\<open>item.type === "model"\<close>.\<close>

fun property_type :: "Property \<Rightarrow> string" where
  "property_type (PField f) = ''field''"
| "property_type (PAttribute a) = ''attribute''"
| "property_type (PComment c) = ''comment''"
| "property_type PBreak = ''break''"

fun isModel :: "Block \<Rightarrow> bool" where
  "isModel (ModelBlock m) = True"
| "isModel (OtherBlock b) = False"

text \<open>
  \<^verbatim>\<open>model.properties.filter((prop) => prop.type === "field")\<close> and the same filter
  for \<^verbatim>\<open>"attribute"\<close>, with the nodes cast to their type.
\<close>

fun fieldsOf :: "Property list \<Rightarrow> Field list" where
  "fieldsOf [] = []"
| "fieldsOf (PField f # ps) = f # fieldsOf ps"
| "fieldsOf (p # ps) = fieldsOf ps"

fun attributesOf :: "Property list \<Rightarrow> Attribute list" where
  "attributesOf [] = []"
| "attributesOf (PAttribute a # ps) = a # attributesOf ps"
| "attributesOf (p # ps) = attributesOf ps"

section \<open>What JavaScript does with strings and exceptions\<close>

datatype exn = TypeError | ParseError

text \<open>
  \<^verbatim>\<open>Array.prototype.join\<close> on strings. An element that is \<^verbatim>\<open>undefined\<close> or
  \<^verbatim>\<open>null\<close> is joined as the empty string, which \<open>joinOpt\<close> writes out.
\<close>

fun join :: "string \<Rightarrow> string list \<Rightarrow> string" where
  "join sep [] = ''''"
| "join sep [x] = x"
| "join sep (x # y # ys) = x @ sep @ join sep (y # ys)"

definition joinOpt :: "string \<Rightarrow> string option list \<Rightarrow> string" where
  "joinOpt sep xs = join sep (map (\<lambda>x. case x of None \<Rightarrow> '''' | Some t \<Rightarrow> t) xs)"

text \<open>The string a template literal \<^verbatim>\<open>${v}\<close> inserts for a value.\<close>

fun toString :: "Value \<Rightarrow> string" where
  "toString (Scalar t) = t"
| "toString Null = ''null''"
| "toString (RelationArray xs) = ''[object Object]''"
| "toString (KeyValue k v) = ''[object Object]''"
| "toString (Func n ps) = ''[object Object]''"

section \<open>Attribute serializer\<close>

text \<open>
  The callback of \<^verbatim>\<open>attribute.args.map\<close> in \<^verbatim>\<open>prepareAttributes\<close>. An object
  that is neither an array node nor a key-value node falls out of the inner
  \<^verbatim>\<open>if\<close> without a \<^verbatim>\<open>return\<close>: the callback yields \<^verbatim>\<open>undefined\<close> (\<open>None\<close>).
  \<^verbatim>\<open>null\<close> takes the \<^verbatim>\<open>else\<close> branch and is returned as it is; \<^verbatim>\<open>join\<close>
  treats it like \<^verbatim>\<open>undefined\<close>.
\<close>

fun renderArg :: "Value \<Rightarrow> string option" where
  "renderArg (RelationArray xs) = Some (''['' @ join '', '' xs @ '']'')"
| "renderArg (KeyValue k v) = Some (k @ '': '' @ toString v)"
| "renderArg (Func n ps) = None"
| "renderArg (Scalar t) = Some t"
| "renderArg Null = None"

text \<open>
  The guard \<^verbatim>\<open>!attribute.args && !attribute.args?.length\<close>: an array is truthy, also
  an empty one, so the left conjunct holds only for an absent list; the right conjunct
  holds for an absent list and for length zero.
\<close>

definition noArgs :: "'a list option \<Rightarrow> bool" where
  "noArgs xs = ((xs = None) \<and> (case xs of None \<Rightarrow> True | Some ys \<Rightarrow> length ys = 0))"

definition prepareAttribute :: "Attribute \<Rightarrow> string" where
  "prepareAttribute attribute =
     (if noArgs (args attribute) then
        (if kind attribute = ModelKind then ''@@'' @ attr_name attribute
         else ''@'' @ attr_name attribute)
      else
        (let rendered = map renderArg (case args attribute of None \<Rightarrow> [] | Some xs \<Rightarrow> xs)
         in (if kind attribute = ModelKind then ''@@'' else ''@'')
            @ attr_name attribute @ ''('' @ joinOpt '', '' rendered @ '')''))"

definition prepareAttributes :: "Attribute list option \<Rightarrow> string list" where
  "prepareAttributes attrs =
     (if noArgs attrs then []
      else map prepareAttribute (case attrs of None \<Rightarrow> [] | Some xs \<Rightarrow> xs))"

section \<open>Default-property resolver\<close>

text \<open>
  \<^verbatim>\<open>idTypePropertyMap\<close> is imported from a module outside the sources at hand; it is
  a parameter here: an ordinary object (an object literal), given by its own keys,
  from function names to property descriptors of any type \<open>'p\<close>. The property access
  \<^verbatim>\<open>idTypePropertyMap[key]\<close> on an ordinary object finds an own key, or else a member
  that the object inherits from \<^verbatim>\<open>Object.prototype\<close>, or else is \<^verbatim>\<open>undefined\<close>.
\<close>

datatype 'p Member = Own 'p | Inherited string

definition objectPrototype :: "string list" where
  "objectPrototype =
     [''constructor'', ''__defineGetter__'', ''__defineSetter__'', ''hasOwnProperty'',
      ''__lookupGetter__'', ''__lookupSetter__'', ''isPrototypeOf'', ''propertyIsEnumerable'',
      ''toString'', ''valueOf'', ''__proto__'', ''toLocaleString'']"

definition getMember :: "(string \<rightharpoonup> 'p) \<Rightarrow> string \<Rightarrow> 'p Member option" where
  "getMember obj key =
     (case obj key of
        Some v \<Rightarrow> Some (Own v)
      | None \<Rightarrow> (if key \<in> set objectPrototype then Some (Inherited key) else None))"

text \<open>
  \<^verbatim>\<open>defaultIdAttribute.args[0].value.name\<close> throws a \<^verbatim>\<open>TypeError\<close> when
  \<^verbatim>\<open>args\<close> is absent, when it is empty (\<^verbatim>\<open>args[0]\<close> is \<^verbatim>\<open>undefined\<close>) and when
  the value is \<^verbatim>\<open>null\<close>. A value without a \<^verbatim>\<open>name\<close> member indexes the table with
  \<^verbatim>\<open>undefined\<close>, that is, with the key \<^verbatim>\<open>"undefined"\<close>.
\<close>

fun valueName :: "Value \<Rightarrow> exn + string" where
  "valueName (Func n ps) = Inr n"
| "valueName Null = Inl TypeError"
| "valueName v = Inr ''undefined''"

definition findDefault :: "Field \<Rightarrow> Attribute option" where
  "findDefault field =
     (case attributes field of
        None \<Rightarrow> None
      | Some attrs \<Rightarrow> find (\<lambda>attr. attr_name attr = ''default'') attrs)"

definition prepareFiledProperties ::
  "(string \<rightharpoonup> 'p) \<Rightarrow> Field \<Rightarrow> exn + 'p Member option" where
  "prepareFiledProperties idTypePropertyMap field =
     (case findDefault field of
        None \<Rightarrow> Inr None
      | Some defaultIdAttribute \<Rightarrow>
          (case args defaultIdAttribute of
             None \<Rightarrow> Inl TypeError
           | Some [] \<Rightarrow> Inl TypeError
           | Some (arg # rest) \<Rightarrow>
               (case valueName arg of
                  Inl e \<Rightarrow> Inl e
                | Inr n \<Rightarrow> Inr (getMember idTypePropertyMap n))))"

section \<open>Entity projector\<close>

record CreateEntityInput =
  e_name :: string
  e_displayName :: string
  e_pluralDisplayName :: string
  e_description :: "string option"
  e_customAttributes :: "string list"

record 'p CreateEntityFieldInput =
  ef_name :: string
  ef_displayName :: string
  ef_dataType :: string
  ef_required :: bool
  ef_unique :: "bool option"
  ef_searchable :: bool
  ef_description :: "string option"
  ef_properties :: "'p Member option"
  ef_customAttributes :: "string list"

text \<open>
  Modelled from the spec: \<^verbatim>\<open>filterOutAmplicationAttributes\<close> lives in the module
  \<^verbatim>\<open>./schema-utils\<close>, which is not among the sources. The specification says that it
  filters the internally reserved attributes out of the serialized strings; which
  strings are reserved is the parameter \<open>reserved\<close>.
\<close>

definition filterOutAmplicationAttributes :: "(string \<Rightarrow> bool) \<Rightarrow> string list \<Rightarrow> string list" where
  "filterOutAmplicationAttributes reserved attrs = filter (\<lambda>s. \<not> reserved s) attrs"


text \<open>\<^verbatim>\<open>pluralize\<close> is the external pluralization utility, a parameter.\<close>

definition prepareEntity :: "(string \<Rightarrow> string) \<Rightarrow> Model \<Rightarrow> CreateEntityInput" where
  "prepareEntity pluralize model =
     (let modelAttributes = attributesOf (properties model);
          entityPluralDisplayName = pluralize (model_name model);
          entityAttributes = prepareAttributes (Some modelAttributes)
      in \<lparr> e_name = model_name model,
           e_displayName = model_name model,
           e_pluralDisplayName = entityPluralDisplayName,
           e_description = None,
           e_customAttributes = entityAttributes \<rparr>)"

text \<open>
  The callback of \<^verbatim>\<open>modelFields.map\<close>. \<^verbatim>\<open>field.attributes?.some(...)\<close> is
  \<^verbatim>\<open>undefined\<close> for a field without an attribute list. \<^verbatim>\<open>field.type\<close> is the tag of
  the node, which the filter before has fixed to \<^verbatim>\<open>"field"\<close>.
\<close>

definition prepareEntityField ::
  "(string \<rightharpoonup> 'p) \<Rightarrow> (string \<Rightarrow> bool) \<Rightarrow> Field \<Rightarrow> exn + 'p CreateEntityFieldInput" where
  "prepareEntityField idTypePropertyMap reserved field =
     (let isUniqueField =
            map_option (list_ex (\<lambda>attr. attr_name attr = ''unique'')) (attributes field)
      in case prepareFiledProperties idTypePropertyMap field of
           Inl e \<Rightarrow> Inl e
         | Inr fieldProperties \<Rightarrow>
             (let fieldAttributes =
                    filterOutAmplicationAttributes reserved (prepareAttributes (attributes field))
              in Inr \<lparr> ef_name = field_name field,
                       ef_displayName = field_name field,
                       ef_dataType = property_type (PField field),
                       ef_required = optional field,
                       ef_unique = isUniqueField,
                       ef_searchable = False,
                       ef_description = None,
                       ef_properties = fieldProperties,
                       ef_customAttributes = fieldAttributes \<rparr>))"

text \<open>\<^verbatim>\<open>Array.prototype.map\<close> with a callback that may throw: the first exception ends it.\<close>

fun mapE :: "('a \<Rightarrow> exn + 'b) \<Rightarrow> 'a list \<Rightarrow> exn + 'b list" where
  "mapE f [] = Inr []"
| "mapE f (x # xs) =
     (case f x of
        Inl e \<Rightarrow> Inl e
      | Inr y \<Rightarrow> (case mapE f xs of Inl e \<Rightarrow> Inl e | Inr ys \<Rightarrow> Inr (y # ys)))"

definition prepareEntityFields ::
  "(string \<rightharpoonup> 'p) \<Rightarrow> (string \<Rightarrow> bool) \<Rightarrow> Model \<Rightarrow> exn + 'p CreateEntityFieldInput list" where
  "prepareEntityFields idTypePropertyMap reserved model =
     (let modelFields = fieldsOf (properties model)
      in mapE (prepareEntityField idTypePropertyMap reserved) modelFields)"

section \<open>Structural validation\<close>

text \<open>
  \<^verbatim>\<open>ErrorMessages\<close> and \<^verbatim>\<open>ErrorLevel\<close> are enumerations of the module \<^verbatim>\<open>./types\<close>;
  the code names the members \<^verbatim>\<open>NoModels\<close> and \<^verbatim>\<open>Error\<close>, the specification names the
  level \<^verbatim>\<open>Warning\<close>. \<^verbatim>\<open>getSchema\<close> is the external parser, a parameter that either
  throws or returns the tree.
\<close>

datatype ErrorMessages = NoModels

datatype ErrorLevel = Error | Warning

record ErrorMessage =
  message :: ErrorMessages
  level :: ErrorLevel
  details :: string

definition validateSchemaProcessing ::
  "(string \<Rightarrow> exn + Schema) \<Rightarrow> string \<Rightarrow> exn + ErrorMessage list option" where
  "validateSchemaProcessing getSchema schema =
     (case getSchema schema of
        Inl e \<Rightarrow> Inl e
      | Inr schemaObject \<Rightarrow>
          (let models = filter isModel schemaObject;
               errors = (if length models = 0
                         then [\<lparr> message = NoModels, level = Error,
                                  details = ''A schema must contain at least one model'' \<rparr>]
                         else [])
           in Inr (if length errors > 0 then Some errors else None)))"

section \<open>The schema builder\<close>

text \<open>
  Modelled from the spec: the builder \<^verbatim>\<open>ConcretePrismaSchemaBuilder\<close> belongs to the
  external grammar library. The specification describes it as offering
  locate-model-by-name, locate-field-by-name-within-model, appending a model-level or
  field-level attribute, and a hook that may alter the name of the located node.
  Nodes are located by name; which node a lookup returns when several carry the name
  is not described, so both readings are kept (\<open>Lookup\<close>). What the builder does when no
  node carries the name is not described either: there the embedding returns \<open>None\<close>.
  A node is identified by its position in the list that holds it; no operation below
  reorders or extends a list of blocks, and properties are only appended.
\<close>

datatype Lookup = FirstMatch | LastMatch

fun findIndex :: "('a \<Rightarrow> bool) \<Rightarrow> 'a list \<Rightarrow> nat option" where
  "findIndex P [] = None"
| "findIndex P (x # xs) = (if P x then Some 0 else map_option Suc (findIndex P xs))"

definition locate :: "Lookup \<Rightarrow> ('a \<Rightarrow> bool) \<Rightarrow> 'a list \<Rightarrow> nat option" where
  "locate pol P xs =
     (case pol of
        FirstMatch \<Rightarrow> findIndex P xs
      | LastMatch \<Rightarrow> map_option (\<lambda>k. length xs - Suc k) (findIndex P (rev xs)))"

fun isModelNamed :: "string \<Rightarrow> Block \<Rightarrow> bool" where
  "isModelNamed n (ModelBlock m) = (model_name m = n)"
| "isModelNamed n (OtherBlock b) = False"

fun isFieldNamed :: "string \<Rightarrow> Property \<Rightarrow> bool" where
  "isFieldNamed n (PField f) = (field_name f = n)"
| "isFieldNamed n (PAttribute a) = False"
| "isFieldNamed n (PComment c) = False"
| "isFieldNamed n PBreak = False"

fun onModel :: "(Model \<Rightarrow> Model) \<Rightarrow> Block \<Rightarrow> Block" where
  "onModel f (ModelBlock m) = ModelBlock (f m)"
| "onModel f (OtherBlock b) = OtherBlock b"

fun onField :: "(Field \<Rightarrow> Field) \<Rightarrow> Property \<Rightarrow> Property" where
  "onField f (PField x) = PField (f x)"
| "onField f (PAttribute a) = PAttribute a"
| "onField f (PComment c) = PComment c"
| "onField f PBreak = PBreak"

text \<open>
  The mapping attribute: named \<^verbatim>\<open>map\<close>, with one argument that carries the given
  name. How the builder quotes the token of the argument is not described; the
  argument is the name as a scalar.
\<close>

definition mapAttribute :: "AttributeKind \<Rightarrow> string \<Rightarrow> Attribute" where
  "mapAttribute k n = \<lparr> kind = k, attr_name = ''map'', args = Some [Scalar n] \<rparr>"

text \<open>\<^verbatim>\<open>.blockAttribute("map", name)\<close> on a model and \<^verbatim>\<open>.attribute("map", [name])\<close> on a field.\<close>

definition blockAttribute :: "string \<Rightarrow> Model \<Rightarrow> Model" where
  "blockAttribute n m = m\<lparr> properties := properties m @ [PAttribute (mapAttribute ModelKind n)] \<rparr>"

definition attribute :: "string \<Rightarrow> Field \<Rightarrow> Field" where
  "attribute n f =
     f\<lparr> attributes :=
          Some ((case attributes f of None \<Rightarrow> [] | Some xs \<Rightarrow> xs) @ [mapAttribute FieldKind n]) \<rparr>"

text \<open>
  \<^verbatim>\<open>builder.model(name)\<close> followed by an operation \<open>f\<close> on the located model, and
  \<^verbatim>\<open>builder.model(name).field(fname)\<close> followed by an operation on the located field.
\<close>

definition withModel :: "Lookup \<Rightarrow> string \<Rightarrow> (Model \<Rightarrow> Model) \<Rightarrow> Schema \<Rightarrow> Schema option" where
  "withModel pol n f s =
     (case locate pol (isModelNamed n) s of
        None \<Rightarrow> None
      | Some k \<Rightarrow> Some (s[k := onModel f (s ! k)]))"

definition inModel :: "Lookup \<Rightarrow> string \<Rightarrow> (Field \<Rightarrow> Field) \<Rightarrow> Model \<Rightarrow> Model option" where
  "inModel pol fname f m =
     (case locate pol (isFieldNamed fname) (properties m) of
        None \<Rightarrow> None
      | Some j \<Rightarrow> Some (m\<lparr> properties := (properties m)[j := onField f (properties m ! j)] \<rparr>))"

definition withField ::
  "Lookup \<Rightarrow> string \<Rightarrow> string \<Rightarrow> (Field \<Rightarrow> Field) \<Rightarrow> Schema \<Rightarrow> Schema option" where
  "withField pol n fname f s =
     (case locate pol (isModelNamed n) s of
        None \<Rightarrow> None
      | Some k \<Rightarrow>
          (case s ! k of
             ModelBlock m \<Rightarrow>
               (case inModel pol fname f m of
                  None \<Rightarrow> None
                | Some m' \<Rightarrow> Some (s[k := ModelBlock m']))
           | OtherBlock b \<Rightarrow> None))"

section \<open>Normalization pipeline\<close>

text \<open>
  \<^verbatim>\<open>models.map(...)\<close> runs its callback on the model objects that the filter collected
  at the start, in order, each callback seeing what the earlier ones did to the tree.
  The objects are the positions of the model blocks.
\<close>

definition modelIndices :: "Schema \<Rightarrow> nat list" where
  "modelIndices s = filter (\<lambda>i. isModel (s ! i)) [0..<length s]"

fun forEach :: "(nat \<Rightarrow> 's \<Rightarrow> 's option) \<Rightarrow> nat list \<Rightarrow> 's \<Rightarrow> 's option" where
  "forEach f [] s = Some s"
| "forEach f (i # is) s = (case f i s of None \<Rightarrow> None | Some s' \<Rightarrow> forEach f is s')"

text \<open>
  The callback of \<^verbatim>\<open>handleModelNamesRenaming\<close> for the model at position \<open>i\<close>.
  \<^verbatim>\<open>pluralize.isPlural\<close> and \<^verbatim>\<open>handleModelName\<close> (of \<^verbatim>\<open>./schema-utils\<close>) are
  parameters. \<^verbatim>\<open>model.name\<close> is read from the object as it is when the callback runs;
  the first chain changes no name, so the second chain looks the same name up.
\<close>

definition isInvalidModelName :: "(string \<Rightarrow> bool) \<Rightarrow> string \<Rightarrow> bool" where
  "isInvalidModelName isPlural n = (isPlural n \<or> CHR ''_'' \<in> set n)"

definition renameModel ::
  "Lookup \<Rightarrow> (string \<Rightarrow> bool) \<Rightarrow> (string \<Rightarrow> string) \<Rightarrow> nat \<Rightarrow> Schema \<Rightarrow> Schema option" where
  "renameModel pol isPlural handleModelName i builder =
     (case builder ! i of
        ModelBlock model \<Rightarrow>
          (if isInvalidModelName isPlural (model_name model) then
             (case withModel pol (model_name model) (blockAttribute (model_name model)) builder of
                None \<Rightarrow> None
              | Some builder1 \<Rightarrow>
                  withModel pol (model_name model)
                    (\<lambda>m. m\<lparr> model_name := handleModelName (model_name m) \<rparr>) builder1)
           else Some builder)
      | OtherBlock b \<Rightarrow> Some builder)"

definition handleModelNamesRenaming ::
  "Lookup \<Rightarrow> (string \<Rightarrow> bool) \<Rightarrow> (string \<Rightarrow> string) \<Rightarrow> Schema \<Rightarrow> Schema option" where
  "handleModelNamesRenaming pol isPlural handleModelName builder =
     forEach (renameModel pol isPlural handleModelName) (modelIndices builder) builder"

text \<open>
  The predicate of \<^verbatim>\<open>model.properties.find\<close> in \<^verbatim>\<open>handleIdField\<close>: a field with an
  attribute named \<^verbatim>\<open>id\<close>; \<^verbatim>\<open>property.attributes?.some(...)\<close> is falsy for a field
  without an attribute list.
\<close>

fun hasIdAttribute :: "Property \<Rightarrow> bool" where
  "hasIdAttribute (PField f) =
     (case attributes f of
        None \<Rightarrow> False
      | Some attrs \<Rightarrow> list_ex (\<lambda>attr. attr_name attr = ''id'') attrs)"
| "hasIdAttribute (PAttribute a) = False"
| "hasIdAttribute (PComment c) = False"
| "hasIdAttribute PBreak = False"

definition renameIdField :: "Lookup \<Rightarrow> nat \<Rightarrow> Schema \<Rightarrow> Schema option" where
  "renameIdField pol i builder =
     (case builder ! i of
        ModelBlock model \<Rightarrow>
          (case find hasIdAttribute (properties model) of
             Some (PField idField) \<Rightarrow>
               (if field_name idField \<noteq> ''id'' then
                  (case withField pol (model_name model) (field_name idField)
                          (attribute (field_name idField)) builder of
                     None \<Rightarrow> None
                   | Some builder1 \<Rightarrow>
                       withField pol (model_name model) (field_name idField)
                         (\<lambda>field. field\<lparr> field_name := ''id'' \<rparr>) builder1)
                else Some builder)
           | _ \<Rightarrow> Some builder)
      | OtherBlock b \<Rightarrow> Some builder)"

definition handleIdField :: "Lookup \<Rightarrow> Schema \<Rightarrow> Schema option" where
  "handleIdField pol builder = forEach (renameIdField pol) (modelIndices builder) builder"

text \<open>
  \<^verbatim>\<open>prepareSchema\<close> runs the operations in order over the same builder. The parse of
  the text by \<^verbatim>\<open>createPrismaSchemaBuilder\<close> is the external parser's; the embedding starts
  from the parsed tree. \<open>normalize\<close> is \<^verbatim>\<open>prepareSchema(...this.operations)\<close>.
\<close>

fun prepareSchema :: "(Schema \<Rightarrow> Schema option) list \<Rightarrow> Schema \<Rightarrow> Schema option" where
  "prepareSchema [] builder = Some builder"
| "prepareSchema (operation # operations) builder =
     (case operation builder of
        None \<Rightarrow> None
      | Some builder' \<Rightarrow> prepareSchema operations builder')"

definition operations ::
  "Lookup \<Rightarrow> (string \<Rightarrow> bool) \<Rightarrow> (string \<Rightarrow> string) \<Rightarrow> (Schema \<Rightarrow> Schema option) list" where
  "operations pol isPlural handleModelName =
     [handleModelNamesRenaming pol isPlural handleModelName, handleIdField pol]"

definition normalize ::
  "Lookup \<Rightarrow> (string \<Rightarrow> bool) \<Rightarrow> (string \<Rightarrow> string) \<Rightarrow> Schema \<Rightarrow> Schema option" where
  "normalize pol isPlural handleModelName =
     prepareSchema (operations pol isPlural handleModelName)"

section \<open>The normalizers as the specification words them\<close>

text \<open>
  Model Name Normalizer: if the name is plural or contains an underscore, attach a
  model-level mapping attribute carrying the original name, then rewrite the name to
  the normalized form; a compliant model is untouched.
\<close>

definition normalizeModelName_spec ::
  "(string \<Rightarrow> bool) \<Rightarrow> (string \<Rightarrow> string) \<Rightarrow> Model \<Rightarrow> Model" where
  "normalizeModelName_spec isPlural handleModelName m =
     (if isPlural (model_name m) \<or> CHR ''_'' \<in> set (model_name m)
      then \<lparr> model_name = handleModelName (model_name m),
             properties = properties m @ [PAttribute (mapAttribute ModelKind (model_name m))] \<rparr>
      else m)"

text \<open>
  Id Field Normalizer: take the first-declared field carrying the primary-key marker;
  if its name is not \<^verbatim>\<open>id\<close>, attach a field-level mapping attribute carrying the
  original field name, then rewrite the name to \<^verbatim>\<open>id\<close>; otherwise leave the model as
  it is.
\<close>

definition normalizeIdField_spec :: "Model \<Rightarrow> Model" where
  "normalizeIdField_spec m =
     (case findIndex hasIdAttribute (properties m) of
        None \<Rightarrow> m
      | Some p \<Rightarrow>
          (case properties m ! p of
             PField f \<Rightarrow>
               (if field_name f = ''id'' then m
                else m\<lparr> properties := (properties m)
                         [p := PField \<lparr> field_name = ''id'', fieldType = fieldType f,
                                        optional = optional f,
                                        attributes =
                                          Some ((case attributes f of None \<Rightarrow> [] | Some xs \<Rightarrow> xs)
                                                @ [mapAttribute FieldKind (field_name f)]) \<rparr>] \<rparr>)
           | _ \<Rightarrow> m))"

text \<open>The names that identify the nodes of a tree.\<close>

fun modelNames :: "Schema \<Rightarrow> string list" where
  "modelNames [] = []"
| "modelNames (ModelBlock m # bs) = model_name m # modelNames bs"
| "modelNames (OtherBlock b # bs) = modelNames bs"

fun fieldNames :: "Property list \<Rightarrow> string list" where
  "fieldNames [] = []"
| "fieldNames (PField f # ps) = field_name f # fieldNames ps"
| "fieldNames (p # ps) = fieldNames ps"

fun fieldNamesDistinct :: "Schema \<Rightarrow> bool" where
  "fieldNamesDistinct [] = True"
| "fieldNamesDistinct (ModelBlock m # bs) =
     (distinct (fieldNames (properties m)) \<and> fieldNamesDistinct bs)"
| "fieldNamesDistinct (OtherBlock b # bs) = fieldNamesDistinct bs"

text \<open>
  The state of a pass that has treated the blocks at the positions in \<open>D\<close> and not
  yet the others.
\<close>

definition treated :: "nat set \<Rightarrow> ('a \<Rightarrow> 'a) \<Rightarrow> 'a list \<Rightarrow> 'a list" where
  "treated D g src = map (\<lambda>j. if j \<in> D then g (src ! j) else src ! j) [0..<length src]"

section \<open>Example inputs\<close>

text \<open>
  A schema with a data source, a plural model whose primary key is not named
  \<^verbatim>\<open>id\<close>, and a compliant model. The collaborators of the examples: \<^verbatim>\<open>Users\<close> is
  plural with singular \<^verbatim>\<open>User\<close>; \<^verbatim>\<open>Sheep\<close> is an uncountable noun, which the
  pluralization utility reports as plural and whose singular is the word itself;
  underscores are dropped from any other name. A second schema has one model, named
  \<^verbatim>\<open>Sheep\<close>, whose primary key is named \<^verbatim>\<open>id\<close>.
\<close>

definition exampleIsPlural :: "string \<Rightarrow> bool" where
  "exampleIsPlural n = (n = ''Users'' \<or> n = ''Sheep'')"

definition exampleHandleModelName :: "string \<Rightarrow> string" where
  "exampleHandleModelName n =
     (if n = ''Users'' then ''User'' else filter (\<lambda>c. c \<noteq> CHR ''_'') n)"

definition exampleIdTypePropertyMap :: "string \<rightharpoonup> string" where
  "exampleIdTypePropertyMap = [''autoincrement'' \<mapsto> ''AUTO_INCREMENT'', ''uuid'' \<mapsto> ''UUID'']"

definition exampleReserved :: "string \<Rightarrow> bool" where
  "exampleReserved s = (s = ''@id'' \<or> s = ''@updatedAt'')"

definition userIdField :: Field where
  "userIdField =
     \<lparr> field_name = ''userId'', fieldType = ''Int'', optional = False,
       attributes = Some [\<lparr> kind = FieldKind, attr_name = ''id'', args = None \<rparr>,
                          \<lparr> kind = FieldKind, attr_name = ''default'',
                            args = Some [Func ''autoincrement'' []] \<rparr>] \<rparr>"

definition emailField :: Field where
  "emailField =
     \<lparr> field_name = ''email'', fieldType = ''String'', optional = False,
       attributes = Some [\<lparr> kind = FieldKind, attr_name = ''unique'', args = None \<rparr>] \<rparr>"

definition bioField :: Field where
  "bioField =
     \<lparr> field_name = ''bio'', fieldType = ''String'', optional = True, attributes = None \<rparr>"

definition usersModel :: Model where
  "usersModel =
     \<lparr> model_name = ''Users'',
       properties = [PField userIdField, PField emailField, PBreak, PField bioField,
                     PAttribute \<lparr> kind = ModelKind, attr_name = ''ignore'', args = None \<rparr>] \<rparr>"

definition postModel :: Model where
  "postModel =
     \<lparr> model_name = ''Post'',
       properties = [PField \<lparr> field_name = ''id'', fieldType = ''Int'', optional = False,
                               attributes = Some [\<lparr> kind = FieldKind, attr_name = ''id'',
                                                    args = None \<rparr>] \<rparr>,
                     PField \<lparr> field_name = ''title'', fieldType = ''String'', optional = False,
                               attributes = None \<rparr>] \<rparr>"

definition exampleSchema :: Schema where
  "exampleSchema = [OtherBlock ''datasource'', ModelBlock usersModel, ModelBlock postModel]"

definition sheepIdField :: Field where
  "sheepIdField =
     \<lparr> field_name = ''id'', fieldType = ''Int'', optional = False,
       attributes = Some [\<lparr> kind = FieldKind, attr_name = ''id'', args = None \<rparr>] \<rparr>"

definition sheepSchema :: Schema where
  "sheepSchema =
     [ModelBlock \<lparr> model_name = ''Sheep'', properties = [PField sheepIdField] \<rparr>]"










text \<open>
  A relation attribute as the parser hands it over for
  \<^verbatim>\<open>@relation(fields: [authorId], references: [id])\<close>, and a field whose default is
  the call \<^verbatim>\<open>toString()\<close>.
\<close>

definition relationAttribute :: Attribute where
  "relationAttribute =
     \<lparr> kind = FieldKind, attr_name = ''relation'',
       args = Some [KeyValue ''fields'' (RelationArray [''authorId'']),
                    KeyValue ''references'' (RelationArray [''id''])] \<rparr>"

definition toStringDefaultField :: Field where
  "toStringDefaultField =
     \<lparr> field_name = ''label'', fieldType = ''String'', optional = False,
       attributes = Some [\<lparr> kind = FieldKind, attr_name = ''default'',
                            args = Some [Func ''toString'' []] \<rparr>] \<rparr>"

section \<open>Lookups and the passes over the blocks\<close>

lemma findIndex_Some:
  "findIndex P xs = Some k \<Longrightarrow> k < length xs \<and> P (xs ! k) \<and> (\<forall>j<k. \<not> P (xs ! j))"
proof (induction xs arbitrary: k)
  case Nil
  then show ?case by simp
next
  case (Cons x xs)
  show ?case
  proof (cases "P x")
    case True
    with Cons.prems show ?thesis by simp
  next
    case False
    with Cons.prems obtain k' where k': "findIndex P xs = Some k'" "k = Suc k'"
      by auto
    from Cons.IH [OF k'(1)] False k'(2) show ?thesis
      by (auto simp: nth_Cons split: nat.splits)
  qed
qed

lemma findIndex_None: "findIndex P xs = None \<longleftrightarrow> (\<forall>x \<in> set xs. \<not> P x)"
  by (induction xs) auto

lemma find_findIndex: "find P xs = map_option (\<lambda>k. xs ! k) (findIndex P xs)"
  by (induction xs) (auto simp: option.map_comp comp_def)

lemma findIndex_unique:
  assumes "i < length xs" "P (xs ! i)" "\<forall>j<length xs. P (xs ! j) \<longrightarrow> j = i"
  shows "findIndex P xs = Some i"
proof (cases "findIndex P xs")
  case None
  with assms(1,2) show ?thesis by (auto simp: findIndex_None)
next
  case (Some k)
  from findIndex_Some [OF Some] assms(3) show ?thesis using Some by auto
qed

lemma locate_unique:
  assumes "i < length xs" "P (xs ! i)" "\<forall>j<length xs. P (xs ! j) \<longrightarrow> j = i"
  shows "locate pol P xs = Some i"
proof (cases pol)
  case FirstMatch
  then show ?thesis using findIndex_unique [OF assms] by (simp add: locate_def)
next
  case LastMatch
  let ?n = "length xs"
  have "findIndex P (rev xs) = Some (?n - Suc i)"
  proof (rule findIndex_unique)
    show "?n - Suc i < length (rev xs)" using assms(1) by simp
    show "P (rev xs ! (?n - Suc i))" using assms(1,2) by (simp add: rev_nth)
    show "\<forall>j<length (rev xs). P (rev xs ! j) \<longrightarrow> j = ?n - Suc i"
    proof (intro allI impI)
      fix j assume j: "j < length (rev xs)" and "P (rev xs ! j)"
      then have "P (xs ! (?n - Suc j))" by (simp add: rev_nth)
      moreover have "?n - Suc j < ?n" using j by simp
      ultimately have "?n - Suc j = i" using assms(3) by blast
      then show "j = ?n - Suc i" using j by auto
    qed
  qed
  then show ?thesis using LastMatch assms(1) by (simp add: locate_def)
qed

lemma length_treated: "length (treated D g src) = length src"
  by (simp add: treated_def)

lemma nth_treated:
  "i < length src \<Longrightarrow> treated D g src ! i = (if i \<in> D then g (src ! i) else src ! i)"
  by (simp add: treated_def)

lemma treated_update:
  "i < length src \<Longrightarrow> (treated D g src)[i := g (src ! i)] = treated (insert i D) g src"
  by (rule nth_equalityI) (auto simp: length_treated nth_treated nth_list_update)

lemma treated_same:
  "i < length src \<Longrightarrow> g (src ! i) = src ! i \<Longrightarrow> treated (insert i D) g src = treated D g src"
  by (rule nth_equalityI) (auto simp: length_treated nth_treated)

lemma treated_empty: "treated {} g src = src"
  by (rule nth_equalityI) (auto simp: length_treated nth_treated)

lemma treated_all:
  "\<forall>j<length src. j \<notin> D \<longrightarrow> g (src ! j) = src ! j \<Longrightarrow> treated D g src = map g src"
  by (rule nth_equalityI) (auto simp: length_treated nth_treated)

lemma forEach_treated:
  assumes step: "\<And>i D. i \<in> S \<Longrightarrow> i \<notin> D \<Longrightarrow> D \<subseteq> S \<Longrightarrow>
                   f i (treated D g src) = Some (treated (insert i D) g src)"
  shows "set is \<subseteq> S \<Longrightarrow> distinct is \<Longrightarrow> D \<subseteq> S \<Longrightarrow> D \<inter> set is = {} \<Longrightarrow>
         forEach f is (treated D g src) = Some (treated (D \<union> set is) g src)"
proof (induction "is" arbitrary: D)
  case Nil
  then show ?case by simp
next
  case (Cons i "is")
  have "f i (treated D g src) = Some (treated (insert i D) g src)"
    using Cons.prems by (intro step) auto
  moreover have "forEach f is (treated (insert i D) g src)
                   = Some (treated (insert i D \<union> set is) g src)"
    using Cons.prems by (intro Cons.IH) auto
  ultimately show ?case by simp
qed

lemma forEach_fixed:
  "(\<And>i. i \<in> set is \<Longrightarrow> f i s = Some s) \<Longrightarrow> forEach f is s = Some s"
  by (induction "is") auto

lemma set_modelIndices: "set (modelIndices s) = {i. i < length s \<and> isModel (s ! i)}"
  by (auto simp: modelIndices_def)

lemma distinct_modelIndices: "distinct (modelIndices s)"
  by (simp add: modelIndices_def)

lemma forEach_models:
  assumes step: "\<And>i D. i < length src \<Longrightarrow> isModel (src ! i) \<Longrightarrow> i \<notin> D \<Longrightarrow>
                   f i (treated D (onModel h) src) = Some (treated (insert i D) (onModel h) src)"
  shows "forEach f (modelIndices src) src = Some (map (onModel h) src)"
proof -
  let ?S = "set (modelIndices src)"
  have "forEach f (modelIndices src) (treated {} (onModel h) src)
          = Some (treated ({} \<union> ?S) (onModel h) src)"
    by (rule forEach_treated [where S = ?S])
       (auto simp: set_modelIndices distinct_modelIndices intro: step)
  moreover have "treated ?S (onModel h) src = map (onModel h) src"
  proof (rule treated_all, intro allI impI)
    fix j assume "j < length src" "j \<notin> ?S"
    then have "\<not> isModel (src ! j)" by (simp add: set_modelIndices)
    then show "onModel h (src ! j) = src ! j" by (cases "src ! j") auto
  qed
  ultimately show ?thesis by (simp add: treated_empty)
qed

lemma modelNames_mem:
  "i < length s \<Longrightarrow> isModelNamed n (s ! i) \<Longrightarrow> n \<in> set (modelNames s)"
proof (induction s arbitrary: i rule: modelNames.induct)
  case 1
  then show ?case by simp
next
  case (2 m bs)
  then show ?case by (cases i) auto
next
  case (3 b bs)
  then show ?case by (cases i) auto
qed

lemma modelNames_unique:
  "distinct (modelNames s) \<Longrightarrow> i < length s \<Longrightarrow> j < length s \<Longrightarrow>
   isModelNamed n (s ! i) \<Longrightarrow> isModelNamed n (s ! j) \<Longrightarrow> i = j"
proof (induction s arbitrary: i j rule: modelNames.induct)
  case 1
  then show ?case by simp
next
  case (2 m bs)
  show ?case
  proof (cases i)
    case 0
    then show ?thesis using "2.prems" modelNames_mem [of _ bs n]
      by (cases j) auto
  next
    case (Suc i')
    then show ?thesis using "2.prems" "2.IH" modelNames_mem [of _ bs n]
      by (cases j) auto
  qed
next
  case (3 b bs)
  then show ?case by (cases i; cases j) auto
qed

lemma fieldNames_mem:
  "i < length ps \<Longrightarrow> isFieldNamed n (ps ! i) \<Longrightarrow> n \<in> set (fieldNames ps)"
proof (induction ps arbitrary: i rule: fieldNames.induct)
  case 1
  then show ?case by simp
next
  case (2 f ps)
  then show ?case by (cases i) auto
qed (case_tac i; auto)+

lemma fieldNames_unique:
  "distinct (fieldNames ps) \<Longrightarrow> i < length ps \<Longrightarrow> j < length ps \<Longrightarrow>
   isFieldNamed n (ps ! i) \<Longrightarrow> isFieldNamed n (ps ! j) \<Longrightarrow> i = j"
proof (induction ps arbitrary: i j rule: fieldNames.induct)
  case 1
  then show ?case by simp
next
  case (2 f ps)
  show ?case
  proof (cases i)
    case 0
    then show ?thesis using "2.prems" fieldNames_mem [of _ ps n]
      by (cases j) auto
  next
    case (Suc i')
    then show ?thesis using "2.prems" "2.IH" fieldNames_mem [of _ ps n]
      by (cases j) auto
  qed
qed (case_tac i; case_tac j; auto)+

lemma isModelNamed_onModel:
  "(\<And>m. model_name (h m) = model_name m) \<Longrightarrow> isModelNamed n (onModel h b) = isModelNamed n b"
  by (cases b) auto

lemma withModel_unique:
  assumes "i < length st" "st ! i = ModelBlock m" "model_name m = n"
      and "\<forall>j<length st. isModelNamed n (st ! j) \<longrightarrow> j = i"
  shows "withModel pol n f st = Some (st[i := ModelBlock (f m)])"
proof -
  have "locate pol (isModelNamed n) st = Some i"
  proof (rule locate_unique [OF assms(1) _ assms(4)])
    show "isModelNamed n (st ! i)" using assms(2,3) by simp
  qed
  then show ?thesis using assms(2) by (simp add: withModel_def)
qed

lemma renameModel_step:
  assumes d: "distinct (modelNames src)"
      and ns: "\<forall>a \<in> set (modelNames src). \<forall>b \<in> set (modelNames src).
                 a \<noteq> b \<and> isInvalidModelName isPlural a \<and> isInvalidModelName isPlural b
                 \<longrightarrow> hmn a \<noteq> b"
      and i: "i < length src" "isModel (src ! i)" "i \<notin> D"
  shows "renameModel pol isPlural hmn i (treated D (onModel (normalizeModelName_spec isPlural hmn)) src)
           = Some (treated (insert i D) (onModel (normalizeModelName_spec isPlural hmn)) src)"
proof -
  let ?g = "onModel (normalizeModelName_spec isPlural hmn)"
  let ?st = "treated D ?g src"
  from i(2) obtain m where m: "src ! i = ModelBlock m" by (cases "src ! i") auto
  let ?n = "model_name m"
  have sti: "?st ! i = ModelBlock m" using i m by (simp add: nth_treated)
  have len: "length ?st = length src" by (simp add: length_treated)
  show ?thesis
  proof (cases "isInvalidModelName isPlural ?n")
    case False
    then have "?g (src ! i) = src ! i"
      by (simp add: m normalizeModelName_spec_def isInvalidModelName_def)
    then have "treated (insert i D) ?g src = ?st" using i(1) by (rule treated_same [rotated])
    then show ?thesis using False sti by (simp add: renameModel_def)
  next
    case True
    have nmem: "?n \<in> set (modelNames src)"
      using modelNames_mem [of i src ?n] i(1) m by simp
    have uniq: "\<forall>j<length ?st. isModelNamed ?n (?st ! j) \<longrightarrow> j = i"
    proof (intro allI impI)
      fix j assume j: "j < length ?st" and named: "isModelNamed ?n (?st ! j)"
      from j have jl: "j < length src" by (simp add: len)
      have ii: "isModelNamed ?n (src ! i)" using m by simp
      show "j = i"
      proof (cases "j \<in> D")
        case False
        then have "isModelNamed ?n (src ! j)" using named jl by (simp add: nth_treated)
        then show ?thesis using modelNames_unique [OF d jl i(1) _ ii] by simp
      next
        case jD: True
        then have g: "isModelNamed ?n (?g (src ! j))" using named jl by (simp add: nth_treated)
        then obtain m' where m': "src ! j = ModelBlock m'" by (cases "src ! j") auto
        have n'mem: "model_name m' \<in> set (modelNames src)"
          using modelNames_mem [of j src "model_name m'"] jl m' by simp
        show ?thesis
        proof (cases "model_name m' = ?n")
          case True
          then have "isModelNamed ?n (src ! j)" using m' by simp
          then show ?thesis using modelNames_unique [OF d jl i(1) _ ii] by simp
        next
          case False
          show ?thesis
          proof (cases "isInvalidModelName isPlural (model_name m')")
            case inv: True
            then have "hmn (model_name m') = ?n"
              using g m' by (simp add: normalizeModelName_spec_def isInvalidModelName_def)
            moreover have "hmn (model_name m') \<noteq> ?n"
              using ns n'mem nmem False inv True by blast
            ultimately show ?thesis by simp
          next
            case ninv: False
            then have "model_name m' = ?n"
              using g m' by (simp add: normalizeModelName_spec_def isInvalidModelName_def)
            with False show ?thesis by simp
          qed
        qed
      qed
    qed
    let ?m1 = "blockAttribute ?n m"
    let ?st1 = "?st[i := ModelBlock ?m1]"
    have w1: "withModel pol ?n (blockAttribute ?n) ?st = Some ?st1"
    proof (rule withModel_unique [OF _ sti refl uniq])
      show "i < length ?st" using i(1) by (simp add: len)
    qed
    have n1: "model_name ?m1 = ?n" by (simp add: blockAttribute_def)
    have uniq1: "\<forall>j<length ?st1. isModelNamed ?n (?st1 ! j) \<longrightarrow> j = i"
    proof (intro allI impI)
      fix j assume j: "j < length ?st1" and named: "isModelNamed ?n (?st1 ! j)"
      show "j = i"
      proof (cases "j = i")
        case False
        then have "?st1 ! j = ?st ! j" by simp
        with named uniq j show ?thesis by simp
      qed simp
    qed
    have st1i: "?st1 ! i = ModelBlock ?m1" using i(1) by (simp add: len)
    have w2: "withModel pol ?n (\<lambda>m. m\<lparr> model_name := hmn (model_name m) \<rparr>) ?st1
                = Some (?st1[i := ModelBlock (?m1\<lparr> model_name := hmn (model_name ?m1) \<rparr>)])"
    proof (rule withModel_unique [OF _ st1i n1 uniq1])
      show "i < length ?st1" using i(1) by (simp add: len)
    qed
    have "ModelBlock (?m1\<lparr> model_name := hmn (model_name ?m1) \<rparr>) = ?g (src ! i)"
      using True by (simp add: m normalizeModelName_spec_def isInvalidModelName_def blockAttribute_def)
    then have "?st1[i := ModelBlock (?m1\<lparr> model_name := hmn (model_name ?m1) \<rparr>)]
                 = treated (insert i D) ?g src"
      using treated_update [OF i(1), of D ?g] by simp
    with w2 have w2': "withModel pol ?n (\<lambda>m. m\<lparr> model_name := hmn (model_name m) \<rparr>) ?st1
                         = Some (treated (insert i D) ?g src)"
      by simp
    have "renameModel pol isPlural hmn i ?st
            = withModel pol ?n (\<lambda>m. m\<lparr> model_name := hmn (model_name m) \<rparr>) ?st1"
      unfolding renameModel_def sti using True w1 by simp
    then show ?thesis using w2' by (rule trans)
  qed
qed

lemma handleModelNamesRenaming_map:
  assumes "distinct (modelNames s)"
      and "\<forall>a \<in> set (modelNames s). \<forall>b \<in> set (modelNames s).
             a \<noteq> b \<and> isInvalidModelName isPlural a \<and> isInvalidModelName isPlural b
             \<longrightarrow> hmn a \<noteq> b"
  shows "handleModelNamesRenaming pol isPlural hmn s
           = Some (map (onModel (normalizeModelName_spec isPlural hmn)) s)"
  unfolding handleModelNamesRenaming_def
proof (rule forEach_models)
  fix i D
  assume "i < length s" "isModel (s ! i)" "i \<notin> D"
  then show "renameModel pol isPlural hmn i
               (treated D (onModel (normalizeModelName_spec isPlural hmn)) s)
             = Some (treated (insert i D) (onModel (normalizeModelName_spec isPlural hmn)) s)"
    by (rule renameModel_step [OF assms])
qed

lemma fieldNamesDistinct_nth:
  "fieldNamesDistinct s \<Longrightarrow> i < length s \<Longrightarrow> s ! i = ModelBlock m \<Longrightarrow>
   distinct (fieldNames (properties m))"
proof (induction s arbitrary: i rule: fieldNamesDistinct.induct)
  case 1
  then show ?case by simp
next
  case (2 m' bs)
  then show ?case by (cases i) auto
next
  case (3 b bs)
  then show ?case by (cases i) auto
qed

lemma Field_update:
  "f\<lparr> attributes := a, field_name := n \<rparr>
     = \<lparr> field_name = n, fieldType = fieldType f, optional = optional f, attributes = a \<rparr>"
  by (cases f) simp

lemma hasIdAttribute_field: "hasIdAttribute p \<Longrightarrow> \<exists>f. p = PField f"
  by (cases p) auto

lemma findIndex_first:
  assumes "p < length xs" "P (xs ! p)" "\<forall>j<p. \<not> P (xs ! j)"
  shows "findIndex P xs = Some p"
proof (cases "findIndex P xs")
  case None
  with assms(1,2) show ?thesis by (auto simp: findIndex_None)
next
  case (Some k)
  from findIndex_Some [OF Some] assms have "\<not> k < p" "\<not> p < k" by auto
  then show ?thesis using Some by simp
qed

lemma model_name_normalizeIdField_spec [simp]:
  "model_name (normalizeIdField_spec m) = model_name m"
  by (simp add: normalizeIdField_spec_def split: option.splits Property.splits)

lemma inModel_unique:
  assumes "p < length (properties m)" "properties m ! p = PField f" "field_name f = n"
      and "\<forall>j<length (properties m). isFieldNamed n (properties m ! j) \<longrightarrow> j = p"
  shows "inModel pol n h m = Some (m\<lparr> properties := (properties m)[p := PField (h f)] \<rparr>)"
proof -
  have "locate pol (isFieldNamed n) (properties m) = Some p"
  proof (rule locate_unique [OF assms(1) _ assms(4)])
    show "isFieldNamed n (properties m ! p)" using assms(2,3) by simp
  qed
  then show ?thesis using assms(2) by (simp add: inModel_def)
qed

lemma withField_unique:
  assumes "i < length st" "st ! i = ModelBlock m" "model_name m = n"
      and "\<forall>j<length st. isModelNamed n (st ! j) \<longrightarrow> j = i"
      and "inModel pol fn h m = Some m'"
  shows "withField pol n fn h st = Some (st[i := ModelBlock m'])"
proof -
  have "locate pol (isModelNamed n) st = Some i"
  proof (rule locate_unique [OF assms(1) _ assms(4)])
    show "isModelNamed n (st ! i)" using assms(2,3) by simp
  qed
  then show ?thesis using assms(2,5) by (simp add: withField_def)
qed

lemma renameIdField_step:
  assumes d: "distinct (modelNames src)"
      and fd: "fieldNamesDistinct src"
      and i: "i < length src" "isModel (src ! i)" "i \<notin> D"
  shows "renameIdField pol i (treated D (onModel normalizeIdField_spec) src)
           = Some (treated (insert i D) (onModel normalizeIdField_spec) src)"
proof -
  let ?g = "onModel normalizeIdField_spec"
  let ?st = "treated D ?g src"
  from i(2) obtain m where m: "src ! i = ModelBlock m" by (cases "src ! i") auto
  let ?n = "model_name m"
  let ?ps = "properties m"
  have sti: "?st ! i = ModelBlock m" using i m by (simp add: nth_treated)
  have len: "length ?st = length src" by (simp add: length_treated)
  have same: "?g (src ! i) = src ! i \<Longrightarrow> treated (insert i D) ?g src = ?st"
    using i(1) by (rule treated_same)
  have dps: "distinct (fieldNames ?ps)" using fieldNamesDistinct_nth [OF fd i(1) m] .
  show ?thesis
  proof (cases "findIndex hasIdAttribute ?ps")
    case None
    then have "find hasIdAttribute ?ps = None" by (simp add: find_findIndex)
    moreover have "?g (src ! i) = src ! i" using None by (simp add: m normalizeIdField_spec_def)
    ultimately show ?thesis using sti same by (simp add: renameIdField_def)
  next
    case (Some p)
    from findIndex_Some [OF Some] have p: "p < length ?ps" "hasIdAttribute (?ps ! p)" by auto
    then obtain f where f: "?ps ! p = PField f" using hasIdAttribute_field by blast
    have fnd: "find hasIdAttribute ?ps = Some (PField f)" using Some f by (simp add: find_findIndex)
    show ?thesis
    proof (cases "field_name f = ''id''")
      case True
      then have "?g (src ! i) = src ! i" using Some f by (simp add: m normalizeIdField_spec_def)
      then show ?thesis using sti same fnd True by (simp add: renameIdField_def)
    next
      case False
      let ?fn = "field_name f"
      have uniq: "\<forall>j<length ?st. isModelNamed ?n (?st ! j) \<longrightarrow> j = i"
      proof (intro allI impI)
        fix j assume j: "j < length ?st" and named: "isModelNamed ?n (?st ! j)"
        from j have jl: "j < length src" by (simp add: len)
        have "isModelNamed ?n (src ! j)"
          using named jl by (simp add: nth_treated isModelNamed_onModel split: if_splits)
        moreover have "isModelNamed ?n (src ! i)" using m by simp
        ultimately show "j = i" using modelNames_unique [OF d jl i(1)] by simp
      qed
      have funiq: "\<forall>j<length ?ps. isFieldNamed ?fn (?ps ! j) \<longrightarrow> j = p"
      proof (intro allI impI)
        fix j assume "j < length ?ps" "isFieldNamed ?fn (?ps ! j)"
        moreover have "isFieldNamed ?fn (?ps ! p)" using f by simp
        ultimately show "j = p" using fieldNames_unique [OF dps _ p(1)] by simp
      qed
      let ?f1 = "attribute ?fn f"
      let ?m1 = "m\<lparr> properties := ?ps[p := PField ?f1] \<rparr>"
      let ?st1 = "?st[i := ModelBlock ?m1]"
      have in1: "inModel pol ?fn (attribute ?fn) m = Some ?m1"
        by (rule inModel_unique [OF p(1) f refl funiq])
      have w1: "withField pol ?n ?fn (attribute ?fn) ?st = Some ?st1"
      proof (rule withField_unique [OF _ sti refl uniq in1])
        show "i < length ?st" using i(1) by (simp add: len)
      qed
      have st1i: "?st1 ! i = ModelBlock ?m1" using i(1) by (simp add: len)
      have n1: "model_name ?m1 = ?n" by simp
      have uniq1: "\<forall>j<length ?st1. isModelNamed ?n (?st1 ! j) \<longrightarrow> j = i"
      proof (intro allI impI)
        fix j assume j: "j < length ?st1" and named: "isModelNamed ?n (?st1 ! j)"
        show "j = i"
        proof (cases "j = i")
          case False
          then have "?st1 ! j = ?st ! j" by simp
          with named uniq j show ?thesis by simp
        qed simp
      qed
      have p1: "p < length (properties ?m1)" using p(1) by simp
      have f1: "properties ?m1 ! p = PField ?f1" using p(1) by simp
      have fn1: "field_name ?f1 = ?fn" by (simp add: attribute_def)
      have funiq1: "\<forall>j<length (properties ?m1). isFieldNamed ?fn (properties ?m1 ! j) \<longrightarrow> j = p"
      proof (intro allI impI)
        fix j assume j: "j < length (properties ?m1)"
          and named: "isFieldNamed ?fn (properties ?m1 ! j)"
        show "j = p"
        proof (cases "j = p")
          case False
          then have "properties ?m1 ! j = ?ps ! j" by simp
          with named funiq j show ?thesis by simp
        qed simp
      qed
      let ?m2 = "?m1\<lparr> properties := (properties ?m1)[p := PField (?f1\<lparr> field_name := ''id'' \<rparr>)] \<rparr>"
      have in2: "inModel pol ?fn (\<lambda>field. field\<lparr> field_name := ''id'' \<rparr>) ?m1 = Some ?m2"
        by (rule inModel_unique [OF p1 f1 fn1 funiq1])
      have w2: "withField pol ?n ?fn (\<lambda>field. field\<lparr> field_name := ''id'' \<rparr>) ?st1
                  = Some (?st1[i := ModelBlock ?m2])"
      proof (rule withField_unique [OF _ st1i n1 uniq1 in2])
        show "i < length ?st1" using i(1) by (simp add: len)
      qed
      have "normalizeIdField_spec m = ?m2"
        using Some f False by (simp add: normalizeIdField_spec_def attribute_def Field_update)
      then have "ModelBlock ?m2 = ?g (src ! i)" by (simp add: m)
      then have "?st1[i := ModelBlock ?m2] = treated (insert i D) ?g src"
        using treated_update [OF i(1), of D ?g] by simp
      with w2 have w2': "withField pol ?n ?fn (\<lambda>field. field\<lparr> field_name := ''id'' \<rparr>) ?st1
                           = Some (treated (insert i D) ?g src)"
        by simp
      have "renameIdField pol i ?st
              = withField pol ?n ?fn (\<lambda>field. field\<lparr> field_name := ''id'' \<rparr>) ?st1"
        unfolding renameIdField_def sti using False fnd w1 by simp
      then show ?thesis using w2' by (rule trans)
    qed
  qed
qed

lemma handleIdField_map:
  assumes "distinct (modelNames s)" and "fieldNamesDistinct s"
  shows "handleIdField pol s = Some (map (onModel normalizeIdField_spec) s)"
  unfolding handleIdField_def
proof (rule forEach_models)
  fix i D
  assume "i < length s" "isModel (s ! i)" "i \<notin> D"
  then show "renameIdField pol i (treated D (onModel normalizeIdField_spec) s)
             = Some (treated (insert i D) (onModel normalizeIdField_spec) s)"
    by (rule renameIdField_step [OF assms])
qed

lemma modelNames_map_rename:
  "modelNames (map (onModel (normalizeModelName_spec isPlural hmn)) s)
     = map (\<lambda>n. if isInvalidModelName isPlural n then hmn n else n) (modelNames s)"
  by (induction s rule: modelNames.induct)
     (simp_all add: normalizeModelName_spec_def isInvalidModelName_def)

lemma modelNames_map_id:
  "modelNames (map (onModel normalizeIdField_spec) s) = modelNames s"
  by (induction s rule: modelNames.induct) simp_all

lemma fieldNames_append_attribute: "fieldNames (ps @ [PAttribute a]) = fieldNames ps"
  by (induction ps rule: fieldNames.induct) simp_all

lemma fieldNamesDistinct_map_rename:
  "fieldNamesDistinct (map (onModel (normalizeModelName_spec isPlural hmn)) s)
     = fieldNamesDistinct s"
  by (induction s rule: fieldNamesDistinct.induct)
     (simp_all add: normalizeModelName_spec_def fieldNames_append_attribute)

lemma handleModelNamesRenaming_fixed:
  assumes "\<forall>n \<in> set (modelNames s). \<not> isInvalidModelName isPlural n"
  shows "handleModelNamesRenaming pol isPlural hmn s = Some s"
  unfolding handleModelNamesRenaming_def
proof (rule forEach_fixed)
  fix i assume "i \<in> set (modelIndices s)"
  then have i: "i < length s" "isModel (s ! i)" by (simp_all add: set_modelIndices)
  then obtain m where m: "s ! i = ModelBlock m" by (cases "s ! i") auto
  have "model_name m \<in> set (modelNames s)"
    using modelNames_mem [of i s "model_name m"] i(1) m by simp
  then have "\<not> isInvalidModelName isPlural (model_name m)" using assms by blast
  then show "renameModel pol isPlural hmn i s = Some s"
    by (simp add: renameModel_def m)
qed

lemma handleIdField_fixed:
  assumes "\<forall>m f. ModelBlock m \<in> set s \<and> find hasIdAttribute (properties m) = Some (PField f)
             \<longrightarrow> field_name f = ''id''"
  shows "handleIdField pol s = Some s"
  unfolding handleIdField_def
proof (rule forEach_fixed)
  fix i assume "i \<in> set (modelIndices s)"
  then have i: "i < length s" "isModel (s ! i)" by (simp_all add: set_modelIndices)
  then obtain m where m: "s ! i = ModelBlock m" by (cases "s ! i") auto
  then have mem: "ModelBlock m \<in> set s" using i(1) by (metis nth_mem)
  show "renameIdField pol i s = Some s"
  proof (cases "find hasIdAttribute (properties m)")
    case None
    then show ?thesis by (simp add: renameIdField_def m)
  next
    case (Some p)
    then have "hasIdAttribute p" by (auto simp: find_Some_iff)
    then obtain f where f: "p = PField f" using hasIdAttribute_field by blast
    with assms mem Some have "field_name f = ''id''" by blast
    then show ?thesis using Some f by (simp add: renameIdField_def m)
  qed
qed

lemma normalizeIdField_spec_normal:
  assumes "find hasIdAttribute (properties (normalizeIdField_spec m)) = Some (PField f)"
  shows "field_name f = ''id''"
proof (cases "findIndex hasIdAttribute (properties m)")
  case None
  then have "normalizeIdField_spec m = m" by (simp add: normalizeIdField_spec_def)
  with assms None show ?thesis by (simp add: find_findIndex)
next
  case (Some p)
  let ?ps = "properties m"
  from findIndex_Some [OF Some]
  have p: "p < length ?ps" "hasIdAttribute (?ps ! p)" "\<forall>j<p. \<not> hasIdAttribute (?ps ! j)"
    by auto
  then obtain g where g: "?ps ! p = PField g" using hasIdAttribute_field by blast
  show ?thesis
  proof (cases "field_name g = ''id''")
    case True
    then have "normalizeIdField_spec m = m" using Some g by (simp add: normalizeIdField_spec_def)
    with assms Some g True show ?thesis by (simp add: find_findIndex)
  next
    case False
    let ?g' = "\<lparr> field_name = ''id'', fieldType = fieldType g, optional = optional g,
                 attributes = Some ((case attributes g of None \<Rightarrow> [] | Some xs \<Rightarrow> xs)
                                    @ [mapAttribute FieldKind (field_name g)]) \<rparr>"
    have eq: "properties (normalizeIdField_spec m) = ?ps[p := PField ?g']"
      using Some g False by (simp add: normalizeIdField_spec_def)
    have hg: "hasIdAttribute (PField ?g')"
      using p(2) g by (auto split: option.splits)
    have "findIndex hasIdAttribute (?ps[p := PField ?g']) = Some p"
    proof (rule findIndex_first)
      show "p < length (?ps[p := PField ?g'])" using p(1) by simp
      show "hasIdAttribute (?ps[p := PField ?g'] ! p)" using p(1) hg by simp
      show "\<forall>j<p. \<not> hasIdAttribute (?ps[p := PField ?g'] ! j)" using p(3) by simp
    qed
    then have "find hasIdAttribute (?ps[p := PField ?g']) = Some (PField ?g')"
      using p(1) by (simp add: find_findIndex)
    with assms eq have "f = ?g'" by simp
    then show ?thesis by simp
  qed
qed

lemma normalize_unfold:
  "normalize pol isPlural hmn s =
     (case handleModelNamesRenaming pol isPlural hmn s of
        None \<Rightarrow> None
      | Some s1 \<Rightarrow> handleIdField pol s1)"
  by (simp add: normalize_def operations_def split: option.splits)

lemma normalize_fixed:
  assumes "\<forall>n \<in> set (modelNames s). \<not> isInvalidModelName isPlural n"
      and "\<forall>m f. ModelBlock m \<in> set s \<and> find hasIdAttribute (properties m) = Some (PField f)
             \<longrightarrow> field_name f = ''id''"
  shows "normalize pol isPlural hmn s = Some s"
  by (simp add: normalize_unfold handleModelNamesRenaming_fixed [OF assms(1)]
      handleIdField_fixed [OF assms(2)])

lemma normalize_map:
  assumes d: "distinct (modelNames (map (onModel (normalizeModelName_spec isPlural hmn)) s))"
      and c: "\<forall>a \<in> set (modelNames s). isInvalidModelName isPlural a
                \<longrightarrow> \<not> isInvalidModelName isPlural (hmn a)"
      and fd: "fieldNamesDistinct s"
  shows "normalize pol isPlural hmn s
           = Some (map (onModel normalizeIdField_spec)
                    (map (onModel (normalizeModelName_spec isPlural hmn)) s))"
proof -
  let ?s1 = "map (onModel (normalizeModelName_spec isPlural hmn)) s"
  have d0: "distinct (modelNames s)"
    using d by (simp add: modelNames_map_rename distinct_map)
  have ns: "\<forall>a \<in> set (modelNames s). \<forall>b \<in> set (modelNames s).
              a \<noteq> b \<and> isInvalidModelName isPlural a \<and> isInvalidModelName isPlural b
              \<longrightarrow> hmn a \<noteq> b"
    using c by metis
  have r: "handleModelNamesRenaming pol isPlural hmn s = Some ?s1"
    by (rule handleModelNamesRenaming_map [OF d0 ns])
  have fd1: "fieldNamesDistinct ?s1" using fd by (simp add: fieldNamesDistinct_map_rename)
  have "handleIdField pol ?s1 = Some (map (onModel normalizeIdField_spec) ?s1)"
    by (rule handleIdField_map [OF d fd1])
  then show ?thesis using r by (simp add: normalize_unfold)
qed

lemma normalize_twice:
  assumes d: "distinct (modelNames (map (onModel (normalizeModelName_spec isPlural hmn)) s))"
      and c: "\<forall>a \<in> set (modelNames s). isInvalidModelName isPlural a
                \<longrightarrow> \<not> isInvalidModelName isPlural (hmn a)"
      and fd: "fieldNamesDistinct s"
  shows "\<exists>s'. normalize pol isPlural hmn s = Some s' \<and> normalize pol isPlural hmn s' = Some s'"
proof -
  let ?s1 = "map (onModel (normalizeModelName_spec isPlural hmn)) s"
  let ?s2 = "map (onModel normalizeIdField_spec) ?s1"
  have n1: "normalize pol isPlural hmn s = Some ?s2" by (rule normalize_map [OF d c fd])
  have names: "\<forall>n \<in> set (modelNames ?s2). \<not> isInvalidModelName isPlural n"
    unfolding modelNames_map_id modelNames_map_rename using c by auto
  have ids: "\<forall>m f. ModelBlock m \<in> set ?s2 \<and> find hasIdAttribute (properties m) = Some (PField f)
               \<longrightarrow> field_name f = ''id''"
  proof (intro allI impI)
    fix m f
    assume a: "ModelBlock m \<in> set ?s2 \<and> find hasIdAttribute (properties m) = Some (PField f)"
    then have "ModelBlock m \<in> onModel normalizeIdField_spec ` set ?s1" by (simp only: set_map)
    then obtain b where b: "ModelBlock m = onModel normalizeIdField_spec b" by blast
    then obtain m0 where "m = normalizeIdField_spec m0" by (cases b) simp_all
    with a show "field_name f = ''id''" using normalizeIdField_spec_normal by blast
  qed
  have "normalize pol isPlural hmn ?s2 = Some ?s2" by (rule normalize_fixed [OF names ids])
  with n1 show ?thesis by blast
qed

section \<open>Helper facts of the projector\<close>


lemma mapE_Inr_map:
  "mapE f xs = Inr ys \<Longrightarrow> (\<And>x y. f x = Inr y \<Longrightarrow> h y = k x) \<Longrightarrow> map h ys = map k xs"
  by (induction xs arbitrary: ys) (auto split: sum.splits)

lemma prepareEntityField_Inr:
  "prepareEntityField t r f = Inr ef \<Longrightarrow>
     ef_name ef = field_name f \<and> ef_displayName ef = field_name f
     \<and> ef_required ef = optional f
     \<and> ef_customAttributes ef
         = filterOutAmplicationAttributes r (prepareAttributes (attributes f))"
  by (auto simp: prepareEntityField_def Let_def split: sum.splits)


lemma getMember_absent:
  "idTypePropertyMap n = None \<Longrightarrow> n \<notin> set objectPrototype \<Longrightarrow> getMember idTypePropertyMap n = None"
  by (simp add: getMember_def)

section \<open>The claims\<close>

text \<open>
  C1. The claim: the projected \<^verbatim>\<open>required\<close> is the negation of the field's
  \<^verbatim>\<open>optional\<close> flag. The code assigns \<^verbatim>\<open>required: field.optional\<close>, without the
  negation: the non-optional fields \<^verbatim>\<open>userId\<close> and \<^verbatim>\<open>email\<close> of the example project
  to \<^verbatim>\<open>required = false\<close> and the optional field \<^verbatim>\<open>bio\<close> to \<^verbatim>\<open>required = true\<close>.
\<close>

theorem prepareEntityFields_required_is_optional:
  "map optional (fieldsOf (properties usersModel)) = [False, False, True]
   \<and> map_sum id (map ef_required)
         (prepareEntityFields exampleIdTypePropertyMap exampleReserved usersModel)
       = Inr [False, False, True]"
  by (simp add: usersModel_def userIdField_def emailField_def bioField_def
      prepareEntityFields_def prepareEntityField_def prepareFiledProperties_def
      findDefault_def getMember_def exampleIdTypePropertyMap_def)

text \<open>
  C2. The claim: an attribute with zero arguments, the list absent or present and
  empty, renders without parentheses. The guard of the code holds for an absent list
  only: an attribute whose list is present and empty renders with an empty pair of
  parentheses; with the list absent it renders as the claim says.
\<close>

theorem prepareAttributes_empty_args:
  "prepareAttributes (Some [\<lparr> kind = FieldKind, attr_name = ''unique'', args = Some [] \<rparr>,
                            \<lparr> kind = ModelKind, attr_name = ''ignore'', args = Some [] \<rparr>,
                            \<lparr> kind = FieldKind, attr_name = ''unique'', args = None \<rparr>,
                            \<lparr> kind = ModelKind, attr_name = ''ignore'', args = None \<rparr>])
     = [''@unique()'', ''@@ignore()'', ''@unique'', ''@@ignore'']"
  by (simp add: prepareAttributes_def prepareAttribute_def noArgs_def joinOpt_def)



text \<open>
  C4. Structural validation of a parsed schema without a model returns the list whose
  only entry is the no-models error at level \<^verbatim>\<open>Error\<close>; with at least one model it
  returns \<^verbatim>\<open>null\<close> (\<open>None\<close>).
\<close>

theorem validateSchemaProcessing_models:
  "getSchema schema = Inr schemaObject \<Longrightarrow>
   validateSchemaProcessing getSchema schema =
     Inr (if \<not> list_ex isModel schemaObject
          then Some [\<lparr> message = NoModels, level = Error,
                       details = ''A schema must contain at least one model'' \<rparr>]
          else None)"
  by (simp add: validateSchemaProcessing_def Let_def filter_empty_conv list_ex_iff)

theorem validateSchemaProcessing_models_witness:
  "validateSchemaProcessing (\<lambda>t. Inr [OtherBlock ''datasource'']) ''datasource db {}''
     = Inr (Some [\<lparr> message = NoModels, level = Error,
                     details = ''A schema must contain at least one model'' \<rparr>])
   \<and> validateSchemaProcessing (\<lambda>t. Inr exampleSchema) ''model Users {}'' = Inr None"
  using validateSchemaProcessing_models
          [of "\<lambda>t. Inr [OtherBlock ''datasource'']" "''datasource db {}''"
              "[OtherBlock ''datasource'']"]
        validateSchemaProcessing_models
          [of "\<lambda>t. Inr exampleSchema" "''model Users {}''" exampleSchema]
  by (simp add: exampleSchema_def)







text \<open>
  C7. The claim: the pipeline is idempotent on every parseable schema. Whether a
  second run renames a model again is decided by the pluralization utility: a name
  that the utility still reports as plural after the rename (an uncountable noun,
  whose singular is the word itself) gets a second mapping attribute on the second
  run.
\<close>

theorem normalize_idempotent_counterexample:
  "normalize FirstMatch exampleIsPlural exampleHandleModelName sheepSchema
     = Some [ModelBlock \<lparr> model_name = ''Sheep'',
                          properties = [PField sheepIdField,
                                        PAttribute (mapAttribute ModelKind ''Sheep'')] \<rparr>]
   \<and> normalize FirstMatch exampleIsPlural exampleHandleModelName
         [ModelBlock \<lparr> model_name = ''Sheep'',
                       properties = [PField sheepIdField,
                                     PAttribute (mapAttribute ModelKind ''Sheep'')] \<rparr>]
     = Some [ModelBlock \<lparr> model_name = ''Sheep'',
                          properties = [PField sheepIdField,
                                        PAttribute (mapAttribute ModelKind ''Sheep''),
                                        PAttribute (mapAttribute ModelKind ''Sheep'')] \<rparr>]
   \<and> Option.bind (normalize FirstMatch exampleIsPlural exampleHandleModelName sheepSchema)
         (normalize FirstMatch exampleIsPlural exampleHandleModelName)
       \<noteq> normalize FirstMatch exampleIsPlural exampleHandleModelName sheepSchema"
  by (simp add: normalize_def operations_def handleModelNamesRenaming_def handleIdField_def
      modelIndices_def renameModel_def renameIdField_def withModel_def locate_def sheepSchema_def
      sheepIdField_def exampleIsPlural_def exampleHandleModelName_def isInvalidModelName_def
      blockAttribute_def)

text \<open>
  C7, as amended. For every schema whose model names are pairwise distinct after the
  rename, whose field names are pairwise distinct within each model, and whose
  renamed model names are compliant (the utility reports none of them as plural and
  none contains an underscore), the pipeline returns a schema, and running the
  pipeline on that schema returns it unchanged.
\<close>

theorem normalize_idempotent:
  assumes "distinct (modelNames (map (onModel (normalizeModelName_spec isPlural handleModelName)) s))"
      and "\<forall>a \<in> set (modelNames s). isInvalidModelName isPlural a
             \<longrightarrow> \<not> isInvalidModelName isPlural (handleModelName a)"
      and "fieldNamesDistinct s"
  shows "\<exists>s'. normalize pol isPlural handleModelName s = Some s'
              \<and> normalize pol isPlural handleModelName s' = Some s'"
  by (rule normalize_twice [OF assms])

theorem normalize_idempotent_witness:
  "distinct (modelNames (map (onModel (normalizeModelName_spec exampleIsPlural
                                        exampleHandleModelName)) exampleSchema))
   \<and> fieldNamesDistinct exampleSchema
   \<and> (\<exists>s'. normalize LastMatch exampleIsPlural exampleHandleModelName exampleSchema = Some s'
            \<and> normalize LastMatch exampleIsPlural exampleHandleModelName s' = Some s')"
  using normalize_idempotent [of exampleIsPlural exampleHandleModelName exampleSchema LastMatch]
  by (simp add: exampleSchema_def usersModel_def postModel_def normalizeModelName_spec_def
      userIdField_def emailField_def bioField_def
      exampleIsPlural_def exampleHandleModelName_def isInvalidModelName_def)

text \<open>
  C8. The claim: a key-value argument renders as \<^verbatim>\<open>key: value\<close>. The code
  interpolates the value into a template literal. The parser hands over an array
  value as an object, and the interpolation of an object is the text
  \<^verbatim>\<open>[object Object]\<close>: the directive \<^verbatim>\<open>@relation(fields: [authorId], references: [id])\<close>
  is serialized as \<^verbatim>\<open>@relation(fields: [object Object], references: [object Object])\<close>.
  An array that is an argument itself, a scalar, and a key-value pair with a scalar
  value render as the claim says.
\<close>

theorem prepareAttributes_keyValue_array_value:
  "prepareAttributes (Some [relationAttribute])
     = [''@relation(fields: [object Object], references: [object Object])'']
   \<and> prepareAttributes
         (Some [\<lparr> kind = ModelKind, attr_name = ''index'',
                  args = Some [RelationArray [''email'', ''bio''],
                               KeyValue ''map'' (Scalar ''idx'')] \<rparr>,
                \<lparr> kind = FieldKind, attr_name = ''map'', args = Some [Scalar ''userId''] \<rparr>])
     = [''@@index([email, bio], map: idx)'', ''@map(userId)'']"
  by (simp add: prepareAttributes_def prepareAttribute_def noArgs_def joinOpt_def
      relationAttribute_def)

text \<open>
  C9. The claim: a \<^verbatim>\<open>default\<close> attribute whose function name is not in the lookup
  table resolves to absent. The code indexes the table with the name, and the access
  also finds what the table inherits from \<^verbatim>\<open>Object.prototype\<close>: for the default
  \<^verbatim>\<open>toString()\<close>, a name that is no key of the table, the resolver returns the
  inherited member, not absent. For a field without a \<^verbatim>\<open>default\<close> attribute the
  resolver returns absent and for a \<^verbatim>\<open>default\<close> attribute with an empty argument list
  it throws, as the claim says.
\<close>

theorem prepareFiledProperties_inherited_member:
  "exampleIdTypePropertyMap ''toString'' = None
   \<and> prepareFiledProperties exampleIdTypePropertyMap toStringDefaultField
       = Inr (Some (Inherited ''toString''))
   \<and> prepareFiledProperties exampleIdTypePropertyMap emailField = Inr None
   \<and> prepareFiledProperties exampleIdTypePropertyMap
        \<lparr> field_name = ''createdAt'', fieldType = ''DateTime'', optional = False,
          attributes = Some [\<lparr> kind = FieldKind, attr_name = ''default'', args = Some [] \<rparr>] \<rparr>
       = Inl TypeError"
  by (simp add: prepareFiledProperties_def findDefault_def getMember_def objectPrototype_def
      exampleIdTypePropertyMap_def toStringDefaultField_def emailField_def)

text \<open>
  C10. The \<^verbatim>\<open>displayName\<close> of a projected Entity is its \<^verbatim>\<open>name\<close>, the name of the
  model; the \<^verbatim>\<open>displayName\<close> of every projected EntityField is its \<^verbatim>\<open>name\<close>, the
  name of the field, field by field in declaration order. The projector reads the
  tree it is given, so after normalization a renamed primary-key field has the
  display name \<^verbatim>\<open>id\<close>.
\<close>

theorem displayName_is_name:
  "e_displayName (prepareEntity pluralize model) = e_name (prepareEntity pluralize model)
   \<and> e_name (prepareEntity pluralize model) = model_name model
   \<and> (prepareEntityFields idTypePropertyMap reserved model = Inr efs
      \<longrightarrow> map ef_displayName efs = map ef_name efs
          \<and> map ef_name efs = map field_name (fieldsOf (properties model)))"
proof (intro conjI impI)
  assume run: "prepareEntityFields idTypePropertyMap reserved model = Inr efs"
  then have m: "mapE (prepareEntityField idTypePropertyMap reserved) (fieldsOf (properties model))
                  = Inr efs"
    by (simp add: prepareEntityFields_def)
  have n: "map ef_name efs = map field_name (fieldsOf (properties model))"
    by (rule mapE_Inr_map [OF m]) (simp add: prepareEntityField_Inr)
  have d: "map ef_displayName efs = map field_name (fieldsOf (properties model))"
    by (rule mapE_Inr_map [OF m]) (simp add: prepareEntityField_Inr)
  show "map ef_displayName efs = map ef_name efs" using n d by simp
  show "map ef_name efs = map field_name (fieldsOf (properties model))" by (rule n)
qed (simp_all add: prepareEntity_def)

theorem displayName_is_name_witness:
  "prepareEntityFields exampleIdTypePropertyMap exampleReserved
      (normalizeIdField_spec
         (normalizeModelName_spec exampleIsPlural exampleHandleModelName usersModel))
     = Inr [\<lparr> ef_name = ''id'', ef_displayName = ''id'', ef_dataType = ''field'',
              ef_required = False, ef_unique = Some False, ef_searchable = False,
              ef_description = None, ef_properties = Some (Own ''AUTO_INCREMENT''),
              ef_customAttributes = [''@default()'', ''@map(userId)''] \<rparr>,
            \<lparr> ef_name = ''email'', ef_displayName = ''email'', ef_dataType = ''field'',
              ef_required = False, ef_unique = Some True, ef_searchable = False,
              ef_description = None, ef_properties = None,
              ef_customAttributes = [''@unique''] \<rparr>,
            \<lparr> ef_name = ''bio'', ef_displayName = ''bio'', ef_dataType = ''field'',
              ef_required = True, ef_unique = None, ef_searchable = False,
              ef_description = None, ef_properties = None, ef_customAttributes = [] \<rparr>]
   \<and> e_displayName (prepareEntity id
         (normalizeIdField_spec
            (normalizeModelName_spec exampleIsPlural exampleHandleModelName usersModel)))
       = ''User''"
  (is "prepareEntityFields _ _ ?m = Inr ?efs \<and> _")
proof -
  have run: "prepareEntityFields exampleIdTypePropertyMap exampleReserved ?m = Inr ?efs"
    by (simp add: usersModel_def userIdField_def emailField_def bioField_def
        normalizeIdField_spec_def normalizeModelName_spec_def mapAttribute_def
        exampleIsPlural_def exampleHandleModelName_def
        prepareEntityFields_def prepareEntityField_def prepareFiledProperties_def
        findDefault_def getMember_def exampleIdTypePropertyMap_def exampleReserved_def
        prepareAttributes_def prepareAttribute_def noArgs_def joinOpt_def
        filterOutAmplicationAttributes_def)
  have name: "model_name ?m = ''User''"
    by (simp add: usersModel_def normalizeModelName_spec_def exampleIsPlural_def
        exampleHandleModelName_def)
  from displayName_is_name
         [where pluralize = id and model = ?m and idTypePropertyMap = exampleIdTypePropertyMap
            and reserved = exampleReserved and efs = ?efs]
       run
  have "e_displayName (prepareEntity id ?m) = model_name ?m
        \<and> map ef_displayName ?efs = map ef_name ?efs"
    by simp
  with run name show ?thesis by simp
qed

end
